theory Spec2Isabelle
  imports Complex_Main
begin

section \<open>The legacy single-page layout (main.js)\<close>

text \<open>
  The jQuery script keeps its state in the DOM and in three closure variables
  (\<open>MOBILE_SIZE\<close>, \<open>sections\<close>, \<open>mobile\<close>). The model makes that state an explicit
  record that every function takes and returns.

  Pixel quantities are JavaScript numbers; they are modelled as real numbers, so
  \<open>colHeight/1.5\<close> is exact division.
\<close>

subsection \<open>Class attributes\<close>

text \<open>A class attribute is the list of its space-separated tokens, in order.\<close>

type_synonym classAttr = "string list"

definition is_class :: "string \<Rightarrow> classAttr \<Rightarrow> bool" where
  "is_class c cs = (c \<in> set cs)"

definition add_class :: "string \<Rightarrow> classAttr \<Rightarrow> classAttr" where
  "add_class c cs = (if c \<in> set cs then cs else cs @ [c])"

definition remove_class :: "string \<Rightarrow> classAttr \<Rightarrow> classAttr" where
  "remove_class c cs = filter (\<lambda>x. x \<noteq> c) cs"

text \<open>\<^verbatim>\<open>attr('class').split(" ")[1]\<close>: the second token, or \<open>undefined\<close>.\<close>

fun split1 :: "classAttr \<Rightarrow> string option" where
  "split1 (c0 # c1 # cs) = Some c1"
| "split1 cs = None"

text \<open>String concatenation with a value that may be \<open>undefined\<close>.\<close>

fun jsString :: "string option \<Rightarrow> string" where
  "jsString (Some c) = c"
| "jsString None = ''undefined''"

text \<open>\<^verbatim>\<open>Array.prototype.indexOf\<close>: the first index holding the value, or -1.\<close>

fun indexOf :: "'a list \<Rightarrow> 'a \<Rightarrow> int" where
  "indexOf [] v = -1"
| "indexOf (x # xs) v =
     (if x = v then 0 else (let i = indexOf xs v in if i < 0 then -1 else i + 1))"

subsection \<open>Class selectors built from a name\<close>

text \<open>
  The script builds two selectors by string concatenation,
  \<^verbatim>\<open>'.inner-col.' + sectionName\<close> and \<^verbatim>\<open>'.nav-item.' + className\<close>; jQuery
  reads the result as selector text. In the grammar of its selector engine (to which
  it falls back when the browser rejects a selector) a class name is one or more
  letters, digits, underscores and hyphens, and a dot starts the next class name of
  the same compound selector. So a name that is one such word selects the elements
  that carry it as a class token, and a name such as \<^verbatim>\<open>my.sec\<close> asks for the
  two classes \<^verbatim>\<open>my\<close> and \<^verbatim>\<open>sec\<close>, which an element with the single token
  \<^verbatim>\<open>my.sec\<close> does not have. A name with any other character (a combinator, a
  pseudo-class, a bracket) or with an empty part between dots is either selector
  syntax about elements other than the panels and nav items, or a syntax error; the
  model does not interpret it and has it select none of them.
\<close>

definition identStart :: "char \<Rightarrow> bool" where
  "identStart c = (c \<in> set ''abcdefghijklmnopqrstuvwxyzABCDEFGHIJKLMNOPQRSTUVWXYZ_'')"

definition identChar :: "char \<Rightarrow> bool" where
  "identChar c = (identStart c \<or> c \<in> set ''0123456789-'')"

definition classWord :: "string \<Rightarrow> bool" where
  "classWord name = (name \<noteq> [] \<and> list_all identChar name)"

text \<open>
  The names that are identifiers for CSS and for jQuery alike: a letter or an
  underscore, then letters, digits, underscores and hyphens.
\<close>

definition cssIdent :: "string \<Rightarrow> bool" where
  "cssIdent name =
     (case name of [] \<Rightarrow> False | c # cs \<Rightarrow> identStart c \<and> list_all identChar cs)"

text \<open>The parts of a name between its dots (as \<^verbatim>\<open>split(".")\<close> gives them).\<close>

fun splitDots :: "string \<Rightarrow> string list" where
  "splitDots [] = [[]]"
| "splitDots (c # cs) =
     (if c = CHR ''.'' then [] # splitDots cs
      else (case splitDots cs of
              [] \<Rightarrow> [[c]]
            | part # parts \<Rightarrow> (c # part) # parts))"

definition selectorClasses :: "string \<Rightarrow> string list option" where
  "selectorClasses name =
     (if list_all classWord (splitDots name) then Some (splitDots name) else None)"

text \<open>
  Whether an element with the class attribute \<open>cs\<close>, which carries the fixed first
  class of the selector, is selected by the selector ending in \<open>name\<close>.
\<close>

definition selects :: "string \<Rightarrow> classAttr \<Rightarrow> bool" where
  "selects name cs =
     (case selectorClasses name of
        Some wanted \<Rightarrow> list_all (\<lambda>c. is_class c cs) wanted
      | None \<Rightarrow> False)"

subsection \<open>Panels and the page state\<close>

datatype css_top = Px real | Percent real

datatype css_display = Block | NoDisplay | FromStylesheet

text \<open>
  One \<^verbatim>\<open>.inner-col\<close> element. \<open>fxqueue\<close> is the element's jQuery animation queue:
  the \<open>top\<close> targets of the \<^verbatim>\<open>animate\<close> calls issued on it, oldest first.
\<close>

record panel =
  classes :: classAttr
  outerHeight :: real
  topv :: css_top
  displayv :: css_display
  fxqueue :: "css_top list"

definition hasClass :: "string \<Rightarrow> panel \<Rightarrow> bool" where
  "hasClass c p = is_class c (classes p)"

definition addClass :: "string \<Rightarrow> panel \<Rightarrow> panel" where
  "addClass c p = p\<lparr>classes := add_class c (classes p)\<rparr>"

definition removeClass :: "string \<Rightarrow> panel \<Rightarrow> panel" where
  "removeClass c p = p\<lparr>classes := remove_class c (classes p)\<rparr>"

definition animate :: "css_top \<Rightarrow> panel \<Rightarrow> panel" where
  "animate target p = p\<lparr>fxqueue := fxqueue p @ [target]\<rparr>"

text \<open>
  The page: the closure variables \<open>mobile\<close> and \<open>sections\<close>, the \<^verbatim>\<open>.inner-col\<close>
  elements in document order, \<^verbatim>\<open>$(document).height()\<close>, and the number of
  \<^verbatim>\<open>setTimeout\<close> callbacks of \<open>showSection\<close> that are scheduled and have not run
  (they all have the same body and capture nothing, so a count identifies them).
\<close>

record page =
  mobile :: bool
  sections :: "string option list"
  panels :: "panel list"
  documentHeight :: real
  timers :: nat

definition MOBILE_SIZE :: real where
  "MOBILE_SIZE = 800"

subsection \<open>checkWidths\<close>

text \<open>The argument \<open>windowWidth\<close> is the value \<^verbatim>\<open>$(window).width()\<close> returns.\<close>

definition enterMobile :: "panel \<Rightarrow> panel" where
  "enterMobile p = (addClass ''mobile'' (removeClass ''hidden'' p))\<lparr>displayv := Block\<rparr>"

definition leaveMobile :: "panel \<Rightarrow> panel" where
  "leaveMobile p =
     (if \<not> hasClass ''home'' p
      then (addClass ''hidden'' (removeClass ''mobile'' p))\<lparr>displayv := NoDisplay\<rparr>
      else p)"

definition resetHome :: "panel \<Rightarrow> panel" where
  "resetHome p =
     (if hasClass ''home'' p then (removeClass ''mobile'' p)\<lparr>topv := Percent 50\<rparr> else p)"

definition checkWidths :: "real \<Rightarrow> page \<Rightarrow> page" where
  "checkWidths windowWidth s =
     (if windowWidth \<le> MOBILE_SIZE \<and> \<not> mobile s then
        s\<lparr>mobile := True, panels := map enterMobile (panels s)\<rparr>
      else if windowWidth > MOBILE_SIZE \<and> mobile s then
        s\<lparr>mobile := False, panels := map resetHome (map leaveMobile (panels s))\<rparr>
      else s)"

text \<open>The two states of the layout, read off the flag.\<close>

datatype layout = Paneled | Stacked

definition layoutOf :: "page \<Rightarrow> layout" where
  "layoutOf s = (if mobile s then Stacked else Paneled)"

text \<open>
  A sequence of resize events, each calling \<open>checkWidths\<close> with the new width. The
  first component lists the tier transitions that took place: the calls after which
  the layout differs from the one before.
\<close>

fun resizes :: "real list \<Rightarrow> page \<Rightarrow> (layout \<times> layout) list \<times> page" where
  "resizes [] s = ([], s)"
| "resizes (w # ws) s =
     (let s' = checkWidths w s;
          (ts, s'') = resizes ws s'
      in ((if layoutOf s' = layoutOf s then [] else [(layoutOf s, layoutOf s')]) @ ts, s''))"

subsection \<open>showSection\<close>

text \<open>
  \<open>dir\<close> is the string the callers pass; only equality with \<^verbatim>\<open>"up"\<close> is tested.
  \<^verbatim>\<open>"-" + colHeight/1.5 + "px"\<close> is the negated length (\<open>outerHeight\<close> is never
  negative).
\<close>

definition moveOut :: "string \<Rightarrow> real \<Rightarrow> real \<Rightarrow> css_top" where
  "moveOut dir offScreen colHeight =
     (if dir = ''up'' then Px (offScreen + colHeight / 1.5) else Px (- (colHeight / 1.5)))"

definition moveIn :: "string \<Rightarrow> real \<Rightarrow> real \<Rightarrow> css_top" where
  "moveIn dir offScreen colHeight =
     (if dir = ''up'' then Px (- (colHeight / 1.5)) else Px (offScreen + colHeight / 1.5))"

definition hideVisible :: "string \<Rightarrow> real \<Rightarrow> panel \<Rightarrow> panel" where
  "hideVisible dir offScreen p =
     (if \<not> hasClass ''hidden'' p
      then animate (moveOut dir offScreen (outerHeight p)) (addClass ''hidden'' p)
      else p)"

definition unhideTarget :: "string \<Rightarrow> panel \<Rightarrow> panel" where
  "unhideTarget sectionName p =
     (if selects sectionName (classes p) then removeClass ''hidden'' p else p)"

definition bringIn :: "string \<Rightarrow> real \<Rightarrow> panel \<Rightarrow> panel" where
  "bringIn dir offScreen p =
     (if \<not> hasClass ''hidden'' p
      then animate (Percent 50)
             (p\<lparr>topv := moveIn dir offScreen (outerHeight p), displayv := Block\<rparr>)
      else p)"

definition showSection :: "string \<Rightarrow> string \<Rightarrow> page \<Rightarrow> page" where
  "showSection sectionName dir s =
     (if \<not> mobile s then
        (let offScreen = documentHeight s in
         s\<lparr>panels :=
             map (bringIn dir offScreen)
               (map (unhideTarget sectionName)
                 (map (hideVisible dir offScreen) (panels s))),
           timers := timers s + 1\<rparr>)
      else s)"

text \<open>The body of the 500 ms timer: every panel that is hidden now stops rendering.\<close>

definition unrenderHidden :: "panel \<Rightarrow> panel" where
  "unrenderHidden p = (if hasClass ''hidden'' p then p\<lparr>displayv := NoDisplay\<rparr> else p)"

definition timerFires :: "page \<Rightarrow> page" where
  "timerFires s =
     (if timers s = 0 then s
      else s\<lparr>panels := map unrenderHidden (panels s), timers := timers s - 1\<rparr>)"

subsection \<open>addNavs and the navigation click handler\<close>

text \<open>
  \<open>addNavs\<close> pushes the second class token of every panel onto \<open>sections\<close> (the
  value may be \<open>undefined\<close>) and writes one \<^verbatim>\<open>nav-item\<close> per panel into every
  \<^verbatim>\<open>.nav\<close> element. In the nav of a panel, the items matching
  \<^verbatim>\<open>'.nav-item.' + className\<close> of that panel get the class \<^verbatim>\<open>active\<close>.
  The separators between items carry no class and contribute nothing below. The
  items are written as markup text; a name is taken to hold no quote or markup
  character, so that the class attribute parsed is the one written.
\<close>

definition addNavs :: "page \<Rightarrow> page" where
  "addNavs s = s\<lparr>sections := sections s @ map (\<lambda>p. split1 (classes p)) (panels s)\<rparr>"

definition navItem :: "string option \<Rightarrow> classAttr" where
  "navItem className = [''nav-item'', jsString className]"

definition markActive :: "string \<Rightarrow> classAttr \<Rightarrow> classAttr" where
  "markActive className item =
     (if selects className item then add_class ''active'' item else item)"

definition navOf :: "string option list \<Rightarrow> classAttr \<Rightarrow> classAttr list" where
  "navOf secs ownerClasses = map (markActive (jsString (split1 ownerClasses))) (map navItem secs)"

definition siblings :: "nat \<Rightarrow> 'a list \<Rightarrow> 'a list" where
  "siblings i xs = take i xs @ drop (Suc i) xs"

text \<open>
  The direction computed by the click handler. Its comment reads: "check whether
  moving to section before (up) or after (down) current section".
\<close>

definition direction :: "string option list \<Rightarrow> string \<Rightarrow> string option \<Rightarrow> string" where
  "direction secs currSection selSection =
     (if indexOf secs (Some currSection) > indexOf secs selSection then ''up'' else ''down'')"

text \<open>
  A click on item \<open>i\<close> of the nav \<open>nav\<close>. The handler is bound to
  \<^verbatim>\<open>$('.nav-item').not('.active')\<close> once, after \<open>addNavs\<close>; the classes of the
  items never change afterwards, so a click on an active item runs no code.
\<close>

definition activeName :: "classAttr \<Rightarrow> string" where
  "activeName item = (if is_class ''active'' item then jsString (split1 item) else [])"

definition navClick :: "classAttr list \<Rightarrow> nat \<Rightarrow> page \<Rightarrow> page" where
  "navClick nav i s =
     (if i < length nav \<and> \<not> is_class ''active'' (nav ! i) then
        (let selSection = split1 (nav ! i);
             currSection = concat (map activeName (siblings i nav));
             dir = direction (sections s) currSection selSection
         in showSection (jsString selSection) dir s)
      else s)"

text \<open>\<^verbatim>\<open>$('#intro h3').click\<close>.\<close>

definition introClick :: "page \<Rightarrow> page" where
  "introClick s = showSection ''about'' ''down'' s"

section \<open>The project info view (projects.js)\<close>

text \<open>
  The \<^verbatim>\<open>.extra-info\<close> element: its \<^verbatim>\<open>hidden\<close> class, the text of its
  \<^verbatim>\<open>h1 strong\<close>, its inline position, its animation queue and the opacity
  animations queued on its descendants.
\<close>

datatype boxFx = BoxToggle real real

record infoview =
  ivHidden :: bool
  ivTitle :: string
  ivTop :: real
  ivLeft :: real
  ivQueue :: "boxFx list"
  ivChildFx :: "real list"

record card =
  cardName :: string
  cardTop :: real
  cardLeft :: real
  cardHeight :: real
  cardWidth :: real

record site =
  pg :: page
  cards :: "card list"
  projNames :: "string list"
  extraInfo :: infoview
  overlayFx :: "real list"

datatype jsError = TypeError

text \<open>The loops of \<open>toggleInfo\<close> keep the last match.\<close>

definition findLast :: "('a \<Rightarrow> bool) \<Rightarrow> 'a list \<Rightarrow> 'a option" where
  "findLast P xs = List.find P (rev xs)"

text \<open>
  \<open>toggleInfo\<close>. \<^verbatim>\<open>card.position()\<close> throws when no card matched, and building
  the content throws when no project matched. Of the content written by the "out"
  branch only the title is kept. \<open>BoxToggle dt dl\<close> is the animation that moves the
  box by \<open>dt\<close> and \<open>dl\<close> while toggling its width and height.
\<close>

definition toggleInfo :: "string \<Rightarrow> string \<Rightarrow> site \<Rightarrow> jsError + site" where
  "toggleInfo dir proj s =
     (case findLast (\<lambda>c. cardName c = proj) (cards s) of
        None \<Rightarrow> Inl TypeError
      | Some c \<Rightarrow>
          (let middleTop = cardTop c + cardHeight c / 2;
               middleLeft = cardLeft c + cardWidth c / 2;
               iv = extraInfo s
           in if dir = ''out'' then
                (case findLast (\<lambda>n. n = proj) (projNames s) of
                   None \<Rightarrow> Inl TypeError
                 | Some projObj \<Rightarrow>
                     Inr (s\<lparr>extraInfo := iv\<lparr>ivTitle := proj, ivTop := middleTop,
                               ivLeft := middleLeft,
                               ivQueue := ivQueue iv @ [BoxToggle (- middleTop) (- middleLeft)],
                               ivHidden := \<not> ivHidden iv,
                               ivChildFx := [1]\<rparr>\<rparr>))
              else
                Inr (s\<lparr>extraInfo := iv\<lparr>ivChildFx := ivChildFx iv @ [0],
                          ivQueue := ivQueue iv @ [BoxToggle middleTop middleLeft],
                          ivHidden := \<not> ivHidden iv\<rparr>,
                        overlayFx := overlayFx s @ [0]\<rparr>)))"

text \<open>The click handler projects.js binds to the non-active nav items.\<close>

definition navClickProjects :: "classAttr list \<Rightarrow> nat \<Rightarrow> site \<Rightarrow> jsError + site" where
  "navClickProjects nav i s =
     (if i < length nav \<and> \<not> is_class ''active'' (nav ! i) then
        (if \<not> ivHidden (extraInfo s)
         then toggleInfo ''in'' (ivTitle (extraInfo s)) s
         else Inr s)
      else Inr s)"

text \<open>
  One click event on a nav item. The nav items are created by \<open>addNavs\<close> in the ready
  callback of main.js, which binds its own handler in the same callback; projects.js
  finds items to bind to only when its ready callback runs later (\<open>projectsBound\<close>).
  jQuery runs the handlers of an element in binding order, so the handler of main.js
  runs first. An exception leaves the changes made so far in place.
\<close>

definition navItemClicked ::
  "bool \<Rightarrow> classAttr list \<Rightarrow> nat \<Rightarrow> site \<Rightarrow> jsError option \<times> site" where
  "navItemClicked projectsBound nav i s =
     (let s1 = s\<lparr>pg := navClick nav i (pg s)\<rparr> in
      if projectsBound then
        (case navClickProjects nav i s1 of
           Inl e \<Rightarrow> (Some e, s1)
         | Inr s2 \<Rightarrow> (None, s2))
      else (None, s1))"

text \<open>The intro heading has one handler only, that of main.js.\<close>

definition introClicked :: "site \<Rightarrow> site" where
  "introClicked s = s\<lparr>pg := introClick (pg s)\<rparr>"

section \<open>The app container (pages/_app.tsx) and Screen\<close>

subsection \<open>Section index resolution\<close>

record Section =
  sid :: string
  order :: nat
  startOffset :: real

text \<open>
  A well-formed Section list: \<open>order\<close> is the position in the list (0-based, unique,
  contiguous) and the start offsets ascend.
\<close>

definition wellFormed :: "Section list \<Rightarrow> bool" where
  "wellFormed ss =
     (map order ss = [0..<length ss] \<and> sorted (map startOffset ss))"

text \<open>
  Modelled from the spec: the hook \<^verbatim>\<open>useCurrentSectionIndex\<close>, which
  \<^verbatim>\<open>_app.tsx\<close> imports and calls, is not among the sources. The specification
  (4.3) gives its resolver: find the greatest index \<open>i\<close> such that
  \<open>sections[i].startOffset <= offset\<close>; if the offset is before the first section's
  start, return 0; if the list is empty, return undefined.
\<close>

fun scan :: "Section list \<Rightarrow> real \<Rightarrow> nat \<Rightarrow> nat \<Rightarrow> nat" where
  "scan [] offset i best = best"
| "scan (x # xs) offset i best =
     scan xs offset (Suc i) (if startOffset x \<le> offset then i else best)"

definition resolve :: "Section list \<Rightarrow> real \<Rightarrow> nat option" where
  "resolve ss offset = (if ss = [] then None else Some (scan ss offset 0 0))"

subsection \<open>Router events and the effect of InContext\<close>









text \<open>
  What the handlers act on: the \<open>rendering\<close> state, the scroll offset of the outer
  element (\<open>None\<close> while \<^verbatim>\<open>outerRef.current\<close> is null) and the section index and
  Section list held by the hook.
\<close>

record appState =
  rendering :: bool
  scrollTop :: "real option"
  secs :: "Section list"
  sectionIndex :: "nat option"





subsection \<open>What InContext and Screen render\<close>

record 'c contentSections =
  currentSectionIndex :: "nat option"
  csSections :: "'c list"

record 'c screenProps =
  activePage :: string
  contentSectionsProp :: "'c contentSections option"
  renderingProp :: bool
  scrollPercent :: "real option"

datatype 'c inContextOutput = Children | ScreenElement "'c screenProps"

definition InContext ::
  "bool \<Rightarrow> string \<Rightarrow> nat option \<Rightarrow> 'c list \<Rightarrow> bool \<Rightarrow> real option \<Rightarrow> 'c inContextOutput" where
  "InContext isIndex slug sectionIdx pageSections isRendering percent =
     (if isIndex then Children
      else ScreenElement
        \<lparr>activePage = slug,
         contentSectionsProp =
           (if length pageSections \<noteq> 0
            then Some \<lparr>currentSectionIndex = sectionIdx, csSections = pageSections\<rparr>
            else None),
         renderingProp = isRendering,
         scrollPercent = percent\<rparr>)"

datatype mainNav = MainNavMenu string | DrawerMainNavMenu string

text \<open>
  The components \<open>Screen\<close> mounts. \<open>shouldShowMainNav\<close> and \<open>shouldShowSideNav\<close>
  are the values of \<^verbatim>\<open>shouldShowMainNavMenu(displaySize)\<close> and
  \<^verbatim>\<open>shouldShowSideNavMenu(displaySize)\<close>, which are defined in a file that is not
  among the sources.
\<close>

record 'c screenOutput =
  progressBar :: "real option"
  mainNavigation :: mainNav
  loadingOverlay :: bool
  sideNavMenu :: "(nat option \<times> 'c list) option"

definition Screen :: "bool \<Rightarrow> bool \<Rightarrow> 'c screenProps \<Rightarrow> 'c screenOutput" where
  "Screen shouldShowMainNav shouldShowSideNav props =
     \<lparr>progressBar = scrollPercent props,
      mainNavigation =
        (if shouldShowMainNav then MainNavMenu (activePage props)
         else DrawerMainNavMenu (activePage props)),
      loadingOverlay = renderingProp props,
      sideNavMenu =
        (case contentSectionsProp props of
           Some cs \<Rightarrow>
             (if shouldShowSideNav then Some (currentSectionIndex cs, csSections cs) else None)
         | None \<Rightarrow> None)\<rparr>"

section \<open>Example inputs\<close>

text \<open>
  A page of three panels in the Paneled layout: home is showing, about and work are
  hidden; and the spec's scenario list of three sections.
\<close>

definition mkPanel :: "classAttr \<Rightarrow> real \<Rightarrow> css_display \<Rightarrow> panel" where
  "mkPanel cs h d =
     \<lparr>classes = cs, outerHeight = h, topv = Percent 50, displayv = d, fxqueue = []\<rparr>"

definition examplePage :: page where
  "examplePage =
     \<lparr>mobile = False,
      sections = [Some ''home'', Some ''about'', Some ''work''],
      panels = [mkPanel [''inner-col'', ''home''] 300 Block,
                mkPanel [''inner-col'', ''about'', ''hidden''] 600 NoDisplay,
                mkPanel [''inner-col'', ''work'', ''hidden''] 450 NoDisplay],
      documentHeight = 1000,
      timers = 0\<rparr>"

definition homeNav :: "classAttr list" where
  "homeNav = navOf (sections examplePage) [''inner-col'', ''home'']"

text \<open>
  The same page with the work panel showing, and a site on it whose info view is
  open on the one project card.
\<close>

definition workPage :: page where
  "workPage =
     \<lparr>mobile = False,
      sections = [Some ''home'', Some ''about'', Some ''work''],
      panels = [mkPanel [''inner-col'', ''home'', ''hidden''] 300 NoDisplay,
                mkPanel [''inner-col'', ''about'', ''hidden''] 600 NoDisplay,
                mkPanel [''inner-col'', ''work''] 450 Block],
      documentHeight = 1000,
      timers = 0\<rparr>"

definition workNav :: "classAttr list" where
  "workNav = navOf (sections workPage) [''inner-col'', ''work'']"

definition openSite :: site where
  "openSite =
     \<lparr>pg = workPage,
      cards = [\<lparr>cardName = ''Atlas'', cardTop = 100, cardLeft = 40, cardHeight = 80,
                cardWidth = 120\<rparr>],
      projNames = [''Atlas''],
      extraInfo = \<lparr>ivHidden = False, ivTitle = ''Atlas'', ivTop = 0, ivLeft = 0,
                    ivQueue = [], ivChildFx = []\<rparr>,
      overlayFx = []\<rparr>"

text \<open>
  The section list of the specification's scenario, and an app state over it that
  is scrolled to the top with section 0 current.
\<close>

definition scenario :: "Section list" where
  "scenario = [\<lparr>sid = ''home'', order = 0, startOffset = 0\<rparr>,
               \<lparr>sid = ''about'', order = 1, startOffset = 800\<rparr>,
               \<lparr>sid = ''work'', order = 2, startOffset = 1600\<rparr>]"








section \<open>Shared facts\<close>

lemmas class_defs =
  is_class_def add_class_def remove_class_def hasClass_def addClass_def removeClass_def

lemmas ex_defs = examplePage_def mkPanel_def

lemmas swap_defs =
  showSection_def bringIn_def unhideTarget_def hideVisible_def animate_def moveIn_def
  moveOut_def Let_def

lemma splitDots_no_dot: "CHR ''.'' \<notin> set name \<Longrightarrow> splitDots name = [name]"
  by (induction name) auto

lemma identChar_dot: "\<not> identChar (CHR ''.'')"
  by (simp add: identChar_def identStart_def)

lemma classWord_no_dot: "classWord name \<Longrightarrow> CHR ''.'' \<notin> set name"
  using identChar_dot by (auto simp: classWord_def list_all_iff)

lemma cssIdent_classWord: "cssIdent name \<Longrightarrow> classWord name"
  by (cases name) (simp_all add: cssIdent_def classWord_def identChar_def)

lemma selects_ident: "cssIdent name \<Longrightarrow> selects name cs = is_class name cs"
proof -
  assume "cssIdent name"
  then have w: "classWord name" by (rule cssIdent_classWord)
  then have "splitDots name = [name]" by (simp add: splitDots_no_dot classWord_no_dot)
  with w show ?thesis by (simp add: selects_def selectorClasses_def)
qed

lemma example_idents:
  "cssIdent ''home''" "cssIdent ''about''" "cssIdent ''work''"
  by (simp_all add: cssIdent_def identStart_def identChar_def)

lemma showSection_panels:
  "\<not> mobile s \<Longrightarrow>
   panels (showSection sectionName dir s) =
     map (\<lambda>p. bringIn dir (documentHeight s)
                 (unhideTarget sectionName (hideVisible dir (documentHeight s) p)))
       (panels s)"
  by (simp add: showSection_def Let_def)

section \<open>Breakpoint classification\<close>

text \<open>
  C10: after \<open>checkWidths\<close> the layout is Stacked exactly when the width is at most
  800, and Paneled exactly when it is above 800; at width 800 itself it is Stacked.
  Every width therefore is classified into exactly one of the two layouts.
\<close>

theorem checkWidths_classifies:
  "layoutOf (checkWidths w s) = (if w \<le> 800 then Stacked else Paneled)
   \<and> layoutOf (checkWidths 800 s) = Stacked
   \<and> mobile (checkWidths w s) = (w \<le> 800)"
  by (simp add: checkWidths_def layoutOf_def MOBILE_SIZE_def)

theorem checkWidths_classifies_witness:
  "layoutOf (checkWidths 800 examplePage) = Stacked \<and>
   layoutOf (checkWidths 801 examplePage) = Paneled"
  using checkWidths_classifies [of 800 examplePage] checkWidths_classifies [of 801 examplePage]
  by simp

section \<open>The breakpoint state machine\<close>

lemma home_enterMobile: "hasClass ''home'' (enterMobile p) = hasClass ''home'' p"
  by (auto simp: enterMobile_def class_defs)

lemma home_leaveMobile: "hasClass ''home'' (leaveMobile p) = hasClass ''home'' p"
  by (auto simp: leaveMobile_def class_defs)

lemma home_resetHome: "hasClass ''home'' (resetHome p) = hasClass ''home'' p"
  by (auto simp: resetHome_def class_defs)

lemma topv_resetHome: "hasClass ''home'' p \<Longrightarrow> topv (resetHome p) = Percent 50"
  by (simp add: resetHome_def class_defs)

lemma resizes_scenario:
  assumes "\<not> mobile s"
  shows "resizes [900, 750, 900] s =
     ([(Paneled, Stacked), (Stacked, Paneled)],
      s\<lparr>mobile := False, panels := map (resetHome \<circ> leaveMobile \<circ> enterMobile) (panels s)\<rparr>)"
  using assms by (simp add: checkWidths_def MOBILE_SIZE_def layoutOf_def Let_def)

text \<open>
  C5: \<open>checkWidths\<close> acts only when the tier changes. Called with a width of the
  tier the flag \<open>mobile\<close> already records, it returns the state unchanged. From the
  Paneled layout, the widths 900, 750, 900 cause exactly two transitions, Paneled to
  Stacked and Stacked to Paneled; afterwards the layout is Paneled, the home panels
  are the same ones as before, and each of them has top 50%.
\<close>

theorem checkWidths_tier_changes_only:
  "(w \<le> 800 \<and> mobile s \<longrightarrow> checkWidths w s = s) \<and>
   (800 < w \<and> \<not> mobile s \<longrightarrow> checkWidths w s = s) \<and>
   (\<not> mobile s \<longrightarrow>
      fst (resizes [900, 750, 900] s) = [(Paneled, Stacked), (Stacked, Paneled)] \<and>
      layoutOf (snd (resizes [900, 750, 900] s)) = Paneled \<and>
      map (hasClass ''home'') (panels (snd (resizes [900, 750, 900] s))) =
        map (hasClass ''home'') (panels s) \<and>
      (\<forall>p \<in> set (panels (snd (resizes [900, 750, 900] s))).
         hasClass ''home'' p \<longrightarrow> topv p = Percent 50))"
proof (intro conjI impI)
  assume "w \<le> 800 \<and> mobile s"
  then show "checkWidths w s = s"
    by (simp add: checkWidths_def MOBILE_SIZE_def)
next
  assume "800 < w \<and> \<not> mobile s"
  then show "checkWidths w s = s"
    by (simp add: checkWidths_def MOBILE_SIZE_def)
next
  assume m: "\<not> mobile s"
  note r = resizes_scenario [OF m]
  show "fst (resizes [900, 750, 900] s) = [(Paneled, Stacked), (Stacked, Paneled)]"
    unfolding r by simp
  show "layoutOf (snd (resizes [900, 750, 900] s)) = Paneled"
    unfolding r by (simp add: layoutOf_def)
  show "map (hasClass ''home'') (panels (snd (resizes [900, 750, 900] s))) =
        map (hasClass ''home'') (panels s)"
    unfolding r by (simp add: home_enterMobile home_leaveMobile home_resetHome)
  show "\<forall>p \<in> set (panels (snd (resizes [900, 750, 900] s))).
         hasClass ''home'' p \<longrightarrow> topv p = Percent 50"
    unfolding r
    by (auto simp: topv_resetHome home_enterMobile home_leaveMobile home_resetHome)
qed

theorem checkWidths_tier_changes_only_witness:
  "\<not> mobile examplePage \<and>
   checkWidths 900 examplePage = examplePage \<and>
   fst (resizes [900, 750, 900] examplePage) = [(Paneled, Stacked), (Stacked, Paneled)] \<and>
   hasClass ''home'' (panels (snd (resizes [900, 750, 900] examplePage)) ! 0) \<and>
   topv (panels (snd (resizes [900, 750, 900] examplePage)) ! 0) = Percent 50"
proof -
  have m: "\<not> mobile examplePage" by (simp add: ex_defs)
  have len: "0 < length (panels (snd (resizes [900, 750, 900] examplePage)))"
    unfolding resizes_scenario [OF m] by (simp add: ex_defs)
  have hm: "hasClass ''home'' (panels (snd (resizes [900, 750, 900] examplePage)) ! 0)"
    unfolding resizes_scenario [OF m]
    by (simp add: ex_defs home_enterMobile home_leaveMobile home_resetHome)
       (simp add: class_defs)
  from len have mem: "panels (snd (resizes [900, 750, 900] examplePage)) ! 0
      \<in> set (panels (snd (resizes [900, 750, 900] examplePage)))"
    by (rule nth_mem)
  from checkWidths_tier_changes_only [of 900 examplePage] m mem hm
  show ?thesis by (simp del: resizes.simps)
qed

section \<open>Transitions in the Stacked layout\<close>

text \<open>
  C8: in the Stacked layout (\<open>mobile\<close> set) a transition request changes nothing:
  \<open>showSection\<close> returns the page as it was (no class, display, position or
  animation queue of any panel changes and no timer is scheduled), and so do the two
  click handlers that call it.
\<close>

theorem showSection_stacked_noop:
  "mobile s \<Longrightarrow>
   showSection sectionName dir s = s \<and> navClick nav i s = s \<and> introClick s = s"
  by (simp add: showSection_def navClick_def introClick_def Let_def)

theorem showSection_stacked_noop_witness:
  "mobile (checkWidths 750 examplePage) \<and>
   showSection ''about'' ''down'' (checkWidths 750 examplePage) = checkWidths 750 examplePage \<and>
   navClick homeNav 1 (checkWidths 750 examplePage) = checkWidths 750 examplePage"
proof -
  have m: "mobile (checkWidths 750 examplePage)"
    by (simp add: checkWidths_def ex_defs MOBILE_SIZE_def)
  from showSection_stacked_noop [OF m, of "''about''" "''down''" homeNav 1] m
  show ?thesis by simp
qed

section \<open>Off-screen geometry of a transition\<close>

lemma swap_outgoing:
  "\<not> hasClass ''hidden'' p \<Longrightarrow>
   take (Suc (length (fxqueue p)))
     (fxqueue (bringIn dir H (unhideTarget n (hideVisible dir H p)))) =
   fxqueue p @
     [if dir = ''up'' then Px (H + 2 / 3 * outerHeight p) else Px (- (2 / 3 * outerHeight p))]"
  by (simp add: bringIn_def unhideTarget_def hideVisible_def animate_def moveOut_def class_defs)

lemma swap_incoming:
  "\<not> hasClass ''hidden'' (bringIn dir H (unhideTarget n (hideVisible dir H p))) \<Longrightarrow>
   topv (bringIn dir H (unhideTarget n (hideVisible dir H p))) =
     (if dir = ''up'' then Px (- (2 / 3 * outerHeight p)) else Px (H + 2 / 3 * outerHeight p)) \<and>
   displayv (bringIn dir H (unhideTarget n (hideVisible dir H p))) = Block \<and>
   last (fxqueue (bringIn dir H (unhideTarget n (hideVisible dir H p)))) = Percent 50"
  by (auto simp: bringIn_def unhideTarget_def hideVisible_def animate_def moveIn_def class_defs
        split: if_splits)

text \<open>
  C2, as the code has it. The direction strings are those of the click handler:
  \<^verbatim>\<open>"down"\<close> when the target comes after the current section (toward the end),
  \<^verbatim>\<open>"up"\<close> when it comes before (toward the start). In the Paneled layout, a
  panel of height \<open>h\<close> that was showing gets, as the next animation of its queue, the
  target top \<open>-(2/3)h\<close> for \<^verbatim>\<open>"down"\<close> and \<open>documentHeight + (2/3)h\<close> for
  \<^verbatim>\<open>"up"\<close>. A panel that is showing after the call has been placed on the other
  side (top \<open>documentHeight + (2/3)h\<close> for \<^verbatim>\<open>"down"\<close>, \<open>-(2/3)h\<close> for
  \<^verbatim>\<open>"up"\<close>), has display block, and its last queued animation goes to top 50%.
\<close>

theorem showSection_offscreen_geometry:
  assumes "\<not> mobile s" and "i < length (panels s)"
  shows "(\<not> hasClass ''hidden'' (panels s ! i) \<longrightarrow>
            take (Suc (length (fxqueue (panels s ! i))))
              (fxqueue (panels (showSection sectionName dir s) ! i)) =
            fxqueue (panels s ! i) @
              [if dir = ''up'' then Px (documentHeight s + 2 / 3 * outerHeight (panels s ! i))
               else Px (- (2 / 3 * outerHeight (panels s ! i)))]) \<and>
         (\<not> hasClass ''hidden'' (panels (showSection sectionName dir s) ! i) \<longrightarrow>
            topv (panels (showSection sectionName dir s) ! i) =
              (if dir = ''up'' then Px (- (2 / 3 * outerHeight (panels s ! i)))
               else Px (documentHeight s + 2 / 3 * outerHeight (panels s ! i))) \<and>
            displayv (panels (showSection sectionName dir s) ! i) = Block \<and>
            last (fxqueue (panels (showSection sectionName dir s) ! i)) = Percent 50)"
proof -
  have nth: "panels (showSection sectionName dir s) ! i =
      bringIn dir (documentHeight s)
        (unhideTarget sectionName (hideVisible dir (documentHeight s) (panels s ! i)))"
    using assms by (simp add: showSection_panels)
  show ?thesis
    unfolding nth using swap_outgoing swap_incoming by blast
qed

theorem showSection_offscreen_geometry_witness:
  "\<not> mobile examplePage \<and> 1 < length (panels examplePage) \<and>
   \<not> hasClass ''hidden'' (panels examplePage ! 0) \<and>
   take 1 (fxqueue (panels (showSection ''about'' ''down'' examplePage) ! 0)) = [Px (- 200)] \<and>
   \<not> hasClass ''hidden'' (panels (showSection ''about'' ''down'' examplePage) ! 1) \<and>
   topv (panels (showSection ''about'' ''down'' examplePage) ! 1) = Px 1400 \<and>
   displayv (panels (showSection ''about'' ''down'' examplePage) ! 1) = Block \<and>
   last (fxqueue (panels (showSection ''about'' ''down'' examplePage) ! 1)) = Percent 50"
proof -
  have m: "\<not> mobile examplePage" by (simp add: ex_defs)
  have l0: "0 < length (panels examplePage)" by (simp add: ex_defs)
  have l1: "1 < length (panels examplePage)" by (simp add: ex_defs)
  have v0: "\<not> hasClass ''hidden'' (panels examplePage ! 0)" by (simp add: ex_defs class_defs)
  have v1: "\<not> hasClass ''hidden'' (panels (showSection ''about'' ''down'' examplePage) ! 1)"
    by (simp add: ex_defs class_defs swap_defs selects_ident example_idents)
  have h0: "outerHeight (panels examplePage ! 0) = 300" "fxqueue (panels examplePage ! 0) = []"
    by (simp_all add: ex_defs)
  have h1: "outerHeight (panels examplePage ! 1) = 600" "documentHeight examplePage = 1000"
    by (simp_all add: ex_defs)
  from showSection_offscreen_geometry [OF m l0, of "''about''" "''down''"] v0 h0
  have a: "take 1 (fxqueue (panels (showSection ''about'' ''down'' examplePage) ! 0)) = [Px (- 200)]"
    by simp
  from showSection_offscreen_geometry [OF m l1, of "''about''" "''down''"] v1 h1
  have b: "topv (panels (showSection ''about'' ''down'' examplePage) ! 1) = Px 1400 \<and>
   displayv (panels (showSection ''about'' ''down'' examplePage) ! 1) = Block \<and>
   last (fxqueue (panels (showSection ''about'' ''down'' examplePage) ! 1)) = Percent 50"
    by simp
  show ?thesis using m l1 v0 v1 a b by simp
qed

text \<open>
  The claim as the specification words it fails. On the example page, a click on
  "about" in the nav of the home panel is a transition toward the end (about has the
  higher index, the handler computes \<^verbatim>\<open>"down"\<close>). The outgoing home panel, of
  height 300 in a document of height 1000, is animated to top -200 px, not to
  \<open>1000 + (2/3) 300\<close> px.
\<close>

theorem outgoing_towardEnd_counterexample:
  "indexOf (sections examplePage) (Some ''about'') > indexOf (sections examplePage) (Some ''home'') \<and>
   direction (sections examplePage) ''home'' (Some ''about'') = ''down'' \<and>
   navClick (navOf (sections examplePage) (classes (panels examplePage ! 0))) 1 examplePage =
     showSection ''about'' ''down'' examplePage \<and>
   \<not> hasClass ''hidden'' (panels examplePage ! 0) \<and>
   outerHeight (panels examplePage ! 0) = 300 \<and>
   documentHeight examplePage = 1000 \<and>
   fxqueue (panels (showSection ''about'' ''down'' examplePage) ! 0) = [Px (- 200)] \<and>
   Px (- 200) \<noteq> Px (1000 + 2 / 3 * 300)"
  by (simp add: ex_defs class_defs swap_defs direction_def navClick_def navOf_def navItem_def
        markActive_def siblings_def activeName_def selects_ident example_idents)

section \<open>The direction of a transition\<close>













section \<open>Overlapping transitions and their timers\<close>

lemma unrenderHidden_class: "hasClass c (unrenderHidden p) = hasClass c p"
  by (simp add: unrenderHidden_def class_defs)

lemma unrenderHidden_idem: "unrenderHidden (unrenderHidden p) = unrenderHidden p"
  by (simp add: unrenderHidden_def class_defs)

lemma unrenderHidden_visible: "\<not> hasClass ''hidden'' p \<Longrightarrow> unrenderHidden p = p"
  by (simp add: unrenderHidden_def)

lemma timerFires_funpow_panels:
  "panels ((timerFires ^^ k) s) =
     (if k = 0 \<or> timers s = 0 then panels s else map unrenderHidden (panels s))"
proof (induction k arbitrary: s)
  case 0
  show ?case by simp
next
  case (Suc k)
  have "panels ((timerFires ^^ Suc k) s) = panels ((timerFires ^^ k) (timerFires s))"
    by (simp add: funpow_swap1)
  also have "\<dots> = (if k = 0 \<or> timers (timerFires s) = 0 then panels (timerFires s)
                    else map unrenderHidden (panels (timerFires s)))"
    by (rule Suc.IH)
  also have "\<dots> = (if timers s = 0 then panels s else map unrenderHidden (panels s))"
    by (simp add: timerFires_def unrenderHidden_idem comp_def)
  finally show ?case by simp
qed

lemma swap_class:
  "B \<noteq> ''hidden'' \<Longrightarrow>
   hasClass B (bringIn dir H (unhideTarget n (hideVisible dir H p))) = hasClass B p"
  by (auto simp: bringIn_def unhideTarget_def hideVisible_def animate_def class_defs)

lemma swap_hidden:
  "cssIdent B \<Longrightarrow> B \<noteq> ''hidden'' \<Longrightarrow>
   hasClass ''hidden'' (bringIn dir H (unhideTarget B (hideVisible dir H p))) = (\<not> hasClass B p)"
  by (auto simp: bringIn_def unhideTarget_def hideVisible_def animate_def selects_ident class_defs)

lemma swap_display:
  "\<not> hasClass ''hidden'' (bringIn dir H (unhideTarget B (hideVisible dir H p))) \<Longrightarrow>
   displayv (bringIn dir H (unhideTarget B (hideVisible dir H p))) = Block"
  by (auto simp: bringIn_def unhideTarget_def hideVisible_def animate_def class_defs split: if_splits)

lemma settled_panel:
  assumes "B \<noteq> ''hidden''" and ident: "cssIdent B"
  shows "(let q = unrenderHidden (bringIn dir H (unhideTarget B (hideVisible dir H p))) in
          hasClass B q = hasClass B p \<and>
          (if hasClass B q then \<not> hasClass ''hidden'' q \<and> displayv q = Block
           else hasClass ''hidden'' q \<and> displayv q = NoDisplay))"
proof -
  let ?p' = "bringIn dir H (unhideTarget B (hideVisible dir H p))"
  show ?thesis
  proof (cases "hasClass B p")
    case True
    then have nh: "\<not> hasClass ''hidden'' ?p'" using assms by (simp add: swap_hidden)
    then have "unrenderHidden ?p' = ?p'" by (rule unrenderHidden_visible)
    then show ?thesis using True nh swap_display [OF nh] swap_class [OF assms(1), of dir H B p]
      by (simp add: Let_def)
  next
    case False
    then have h: "hasClass ''hidden'' ?p'" using assms by (simp add: swap_hidden)
    then have "displayv (unrenderHidden ?p') = NoDisplay" by (simp add: unrenderHidden_def)
    then show ?thesis using False h swap_class [OF assms(1), of dir H B p]
      by (simp add: Let_def unrenderHidden_class)
  qed
qed

text \<open>
  C3, as the code has it. \<open>showSection\<close> cancels nothing: it adds one timer to those
  already pending. A timer, stale or not, leaves every panel that is not hidden when
  it fires exactly as it is. So after a transition to a section \<open>B\<close>, whose name is
  an identifier other than "hidden", started from any Paneled state (also one in
  which an earlier transition is mid-flight and its timer still pending), once at
  least one timer has fired, and however many more fire, the panels of \<open>B\<close> are the
  ones they were, they are not hidden and have display block, and every other panel
  is hidden and not rendered.
\<close>

theorem stale_timers_unrender_hidden_only:
  assumes "\<not> mobile s" and "cssIdent B" and "B \<noteq> ''hidden''" and "1 \<le> k"
  shows "timers (showSection B dir s) = Suc (timers s) \<and>
         (\<forall>p. \<not> hasClass ''hidden'' p \<longrightarrow> unrenderHidden p = p) \<and>
         map (hasClass B) (panels ((timerFires ^^ k) (showSection B dir s))) =
           map (hasClass B) (panels s) \<and>
         (\<forall>p \<in> set (panels ((timerFires ^^ k) (showSection B dir s))).
            if hasClass B p then \<not> hasClass ''hidden'' p \<and> displayv p = Block
            else hasClass ''hidden'' p \<and> displayv p = NoDisplay)"
proof -
  have t: "timers (showSection B dir s) = Suc (timers s)"
    using assms(1) by (simp add: showSection_def Let_def)
  have ps: "panels ((timerFires ^^ k) (showSection B dir s)) =
      map (\<lambda>p. unrenderHidden (bringIn dir (documentHeight s)
                 (unhideTarget B (hideVisible dir (documentHeight s) p)))) (panels s)"
    using assms(1,4) t by (simp add: timerFires_funpow_panels showSection_panels comp_def)
  have a: "map (hasClass B) (panels ((timerFires ^^ k) (showSection B dir s))) =
           map (hasClass B) (panels s)"
    unfolding ps using settled_panel [OF assms(3,2)] by (simp add: Let_def comp_def)
  have b: "\<forall>p \<in> set (panels ((timerFires ^^ k) (showSection B dir s))).
            if hasClass B p then \<not> hasClass ''hidden'' p \<and> displayv p = Block
            else hasClass ''hidden'' p \<and> displayv p = NoDisplay"
    unfolding ps using settled_panel [OF assms(3,2), of dir "documentHeight s"]
    by (simp add: Let_def)
  show ?thesis using t a b unrenderHidden_visible by blast
qed


lemma homeNav_items:
  "homeNav = [[''nav-item'', ''home'', ''active''], [''nav-item'', ''about''], [''nav-item'', ''work'']]"
  by (simp add: homeNav_def navOf_def navItem_def markActive_def selects_ident example_idents
        ex_defs class_defs)

lemma homeNav_click:
  assumes "sections s = [Some ''home'', Some ''about'', Some ''work'']"
  shows "navClick homeNav 1 s = showSection ''about'' ''down'' s"
    and "navClick homeNav 2 s = showSection ''work'' ''down'' s"
    and "navClick homeNav 0 s = s"
  by (simp_all add: navClick_def homeNav_items siblings_def activeName_def direction_def assms
        class_defs Let_def)

theorem stale_timers_unrender_hidden_only_witness:
  "\<not> mobile (navClick homeNav 2 examplePage) \<and>
   timers (navClick homeNav 2 examplePage) = 1 \<and>
   navClick homeNav 1 (navClick homeNav 2 examplePage) =
     showSection ''about'' ''down'' (navClick homeNav 2 examplePage) \<and>
   map (hasClass ''about'')
     (panels ((timerFires ^^ 2) (showSection ''about'' ''down'' (navClick homeNav 2 examplePage)))) =
     [False, True, False] \<and>
   map (hasClass ''hidden'')
     (panels ((timerFires ^^ 2) (showSection ''about'' ''down'' (navClick homeNav 2 examplePage)))) =
     [True, False, True] \<and>
   map displayv
     (panels ((timerFires ^^ 2) (showSection ''about'' ''down'' (navClick homeNav 2 examplePage)))) =
     [NoDisplay, Block, NoDisplay]"
proof -
  let ?mid = "navClick homeNav 2 examplePage"
  have mid: "?mid = showSection ''work'' ''down'' examplePage"
    by (rule homeNav_click) (simp add: ex_defs)
  have m: "\<not> mobile ?mid" unfolding mid by (simp add: showSection_def ex_defs Let_def)
  have t: "timers ?mid = 1" unfolding mid by (simp add: showSection_def ex_defs Let_def)
  have secs: "sections ?mid = [Some ''home'', Some ''about'', Some ''work'']"
    unfolding mid by (simp add: showSection_def ex_defs Let_def)
  have second: "navClick homeNav 1 ?mid = showSection ''about'' ''down'' ?mid"
    by (rule homeNav_click) (rule secs)
  have ne: "''about'' \<noteq> ''hidden''" by simp
  have k: "(1::nat) \<le> 2" by simp
  note T = stale_timers_unrender_hidden_only [OF m example_idents(2) ne k, of "''down''"]
  have cls: "map (hasClass ''about'') (panels examplePage) = [False, True, False]"
    by (simp add: ex_defs class_defs)
  have pm: "map (hasClass ''about'') (panels ?mid) = [False, True, False]"
    unfolding mid by (simp add: swap_defs selects_ident example_idents ex_defs class_defs)
  have hd: "map (hasClass ''hidden'')
     (panels ((timerFires ^^ 2) (showSection ''about'' ''down'' ?mid))) = [True, False, True] \<and>
    map displayv
     (panels ((timerFires ^^ 2) (showSection ''about'' ''down'' ?mid))) = [NoDisplay, Block, NoDisplay]"
  proof -
    from T pm have c: "map (hasClass ''about'')
       (panels ((timerFires ^^ 2) (showSection ''about'' ''down'' ?mid))) = [False, True, False]"
      by simp
    then obtain a b d where abd:
       "panels ((timerFires ^^ 2) (showSection ''about'' ''down'' ?mid)) = [a, b, d]"
       "\<not> hasClass ''about'' a" "hasClass ''about'' b" "\<not> hasClass ''about'' d"
      by (auto simp: map_eq_Cons_conv)
    from T have "\<forall>p \<in> set (panels ((timerFires ^^ 2) (showSection ''about'' ''down'' ?mid))).
            if hasClass ''about'' p then \<not> hasClass ''hidden'' p \<and> displayv p = Block
            else hasClass ''hidden'' p \<and> displayv p = NoDisplay"
      by blast
    then show ?thesis using abd by simp
  qed
  show ?thesis using m t second T pm hd by simp
qed

text \<open>
  The claim as the specification words it fails: nothing is cancelled. On the
  example page, the click on "work" schedules one timer; the click on "about" that
  follows while it is pending leaves two timers pending, and the first one to fire
  still runs its body (it stops rendering the home panel).
\<close>

theorem second_transition_keeps_timer_counterexample:
  "timers examplePage = 0 \<and>
   timers (navClick homeNav 2 examplePage) = 1 \<and>
   timers (navClick homeNav 1 (navClick homeNav 2 examplePage)) = 2 \<and>
   displayv (panels (navClick homeNav 1 (navClick homeNav 2 examplePage)) ! 0) = Block \<and>
   displayv (panels (timerFires (navClick homeNav 1 (navClick homeNav 2 examplePage))) ! 0) =
     NoDisplay \<and>
   timers (timerFires (navClick homeNav 1 (navClick homeNav 2 examplePage))) = 1"
proof -
  have s0: "sections examplePage = [Some ''home'', Some ''about'', Some ''work'']"
    by (simp add: ex_defs)
  have c1: "navClick homeNav 2 examplePage = showSection ''work'' ''down'' examplePage"
    by (rule homeNav_click) (rule s0)
  have s1: "sections (showSection ''work'' ''down'' examplePage) =
      [Some ''home'', Some ''about'', Some ''work'']"
    by (simp add: showSection_def ex_defs Let_def)
  have c2: "navClick homeNav 1 (showSection ''work'' ''down'' examplePage) =
      showSection ''about'' ''down'' (showSection ''work'' ''down'' examplePage)"
    by (rule homeNav_click) (rule s1)
  show ?thesis
    unfolding c1 c2
    by (simp add: swap_defs timerFires_def unrenderHidden_def selects_ident example_idents
          ex_defs class_defs)
qed

section \<open>Navigation while the info view is open\<close>

text \<open>
  C9, as the code has it. A click on a non-active nav item while the info view is
  open (and its project card exists) starts closing the info view: the \<open>hidden\<close>
  class is toggled on and the closing animation is appended to its queue. The
  navigation is not deferred: the handler of main.js has already run \<open>showSection\<close>
  in the same click, whatever the state of the info view. The click on the intro
  heading navigates without touching the info view at all.
\<close>

theorem navItemClicked_not_deferred:
  assumes "i < length nav" and "\<not> is_class ''active'' (nav ! i)"
      and "\<not> ivHidden (extraInfo s)"
      and "findLast (\<lambda>c. cardName c = ivTitle (extraInfo s)) (cards s) = Some c"
  shows "fst (navItemClicked True nav i s) = None \<and>
         pg (snd (navItemClicked True nav i s)) = navClick nav i (pg s) \<and>
         ivHidden (extraInfo (snd (navItemClicked True nav i s))) \<and>
         ivQueue (extraInfo (snd (navItemClicked True nav i s))) =
           ivQueue (extraInfo s) @
             [BoxToggle (cardTop c + cardHeight c / 2) (cardLeft c + cardWidth c / 2)] \<and>
         extraInfo (introClicked s) = extraInfo s \<and>
         pg (introClicked s) = showSection ''about'' ''down'' (pg s)"
  using assms
  by (simp add: navItemClicked_def navClickProjects_def toggleInfo_def introClicked_def
        introClick_def Let_def)


lemma workNav_items:
  "workNav = [[''nav-item'', ''home''], [''nav-item'', ''about''], [''nav-item'', ''work'', ''active'']]"
  by (simp add: workNav_def workPage_def navOf_def navItem_def markActive_def selects_ident
        example_idents class_defs)

lemma openSite_click:
  "navItemClicked True workNav 0 openSite =
     (None, openSite\<lparr>pg := showSection ''home'' ''up'' workPage,
                      extraInfo := (extraInfo openSite)\<lparr>ivChildFx := [0],
                         ivQueue := [BoxToggle 140 100], ivHidden := True\<rparr>,
                      overlayFx := [0]\<rparr>)"
  by (simp add: navItemClicked_def navClickProjects_def toggleInfo_def findLast_def
        navClick_def workNav_items siblings_def activeName_def direction_def openSite_def
        workPage_def class_defs Let_def)

theorem navItemClicked_not_deferred_witness:
  "0 < length workNav \<and> \<not> is_class ''active'' (workNav ! 0) \<and>
   \<not> ivHidden (extraInfo openSite) \<and>
   fst (navItemClicked True workNav 0 openSite) = None \<and>
   pg (snd (navItemClicked True workNav 0 openSite)) = navClick workNav 0 workPage \<and>
   ivHidden (extraInfo (snd (navItemClicked True workNav 0 openSite))) \<and>
   ivQueue (extraInfo (snd (navItemClicked True workNav 0 openSite))) = [BoxToggle 140 100]"
proof -
  have l: "0 < length workNav" by (simp add: workNav_items)
  have a: "\<not> is_class ''active'' (workNav ! 0)" by (simp add: workNav_items class_defs)
  have h: "\<not> ivHidden (extraInfo openSite)" by (simp add: openSite_def)
  have c: "findLast (\<lambda>c. cardName c = ivTitle (extraInfo openSite)) (cards openSite) =
      Some \<lparr>cardName = ''Atlas'', cardTop = 100, cardLeft = 40, cardHeight = 80, cardWidth = 120\<rparr>"
    by (simp add: findLast_def openSite_def)
  have p: "pg openSite = workPage" "ivQueue (extraInfo openSite) = []"
    by (simp_all add: openSite_def)
  from navItemClicked_not_deferred [OF l a h c] l a h p
  show ?thesis by simp
qed

text \<open>
  The claim as the specification words it fails. On the example site the info view
  is open and idle. Right after the click on "home" its closing animation is still
  queued, and the panels have been given their animations in that same click. The
  click on the intro heading animates the panels and leaves the info view open.
\<close>

theorem navigation_while_overlay_closing_counterexample:
  "\<not> ivHidden (extraInfo openSite) \<and>
   ivQueue (extraInfo openSite) = [] \<and>
   fst (navItemClicked True workNav 0 openSite) = None \<and>
   ivQueue (extraInfo (snd (navItemClicked True workNav 0 openSite))) = [BoxToggle 140 100] \<and>
   fxqueue (panels workPage ! 0) = [] \<and>
   fxqueue (panels (pg (snd (navItemClicked True workNav 0 openSite))) ! 0) = [Percent 50] \<and>
   fxqueue (panels (pg (snd (navItemClicked True workNav 0 openSite))) ! 2) = [Px 1300] \<and>
   \<not> ivHidden (extraInfo (introClicked openSite)) \<and>
   fxqueue (panels (pg (introClicked openSite)) ! 1) = [Percent 50]"
  unfolding openSite_click
  by (simp add: openSite_def workPage_def mkPanel_def swap_defs selects_ident example_idents
        class_defs introClicked_def
        introClick_def)

section \<open>Section index resolution\<close>

lemma scan_none:
  "\<forall>j < length xs. \<not> startOffset (xs ! j) \<le> offset \<Longrightarrow> scan xs offset i best = best"
proof (induction xs arbitrary: i best)
  case Nil
  show ?case by simp
next
  case (Cons x xs)
  from Cons.prems have x: "\<not> startOffset x \<le> offset" by auto
  from Cons.prems have "\<forall>j < length xs. \<not> startOffset (xs ! j) \<le> offset" by auto
  from Cons.IH [OF this] x show ?case by simp
qed

lemma scan_some:
  "\<exists>j < length xs. startOffset (xs ! j) \<le> offset \<Longrightarrow>
   i \<le> scan xs offset i best \<and> scan xs offset i best < i + length xs \<and>
   startOffset (xs ! (scan xs offset i best - i)) \<le> offset \<and>
   (\<forall>j < length xs. startOffset (xs ! j) \<le> offset \<longrightarrow> i + j \<le> scan xs offset i best)"
proof (induction xs arbitrary: i best)
  case Nil
  then show ?case by simp
next
  case (Cons x xs)
  let ?best = "if startOffset x \<le> offset then i else best"
  let ?r = "scan xs offset (Suc i) ?best"
  have r: "scan (x # xs) offset i best = ?r" by simp
  show ?case
  proof (cases "\<exists>j < length xs. startOffset (xs ! j) \<le> offset")
    case True
    from Cons.IH [OF True, of "Suc i" ?best]
    have ih: "Suc i \<le> ?r" "?r < Suc i + length xs"
      "startOffset (xs ! (?r - Suc i)) \<le> offset"
      "\<forall>j < length xs. startOffset (xs ! j) \<le> offset \<longrightarrow> Suc i + j \<le> ?r"
      by blast+
    from ih(1) have idx: "(x # xs) ! (?r - i) = xs ! (?r - Suc i)"
      by (metis Suc_diff_le diff_Suc_Suc nth_Cons_Suc)
    have all: "\<forall>j < length (x # xs). startOffset ((x # xs) ! j) \<le> offset \<longrightarrow> i + j \<le> ?r"
    proof (intro allI impI)
      fix j assume "j < length (x # xs)" "startOffset ((x # xs) ! j) \<le> offset"
      then show "i + j \<le> ?r" using ih(1,4) by (cases j) auto
    qed
    show ?thesis unfolding r idx using ih all by simp
  next
    case False
    then have none: "\<forall>j < length xs. \<not> startOffset (xs ! j) \<le> offset" by blast
    have rb: "?r = ?best" by (rule scan_none [OF none])
    from Cons.prems False have x: "startOffset x \<le> offset"
      by (metis length_Cons less_Suc_eq_0_disj nth_Cons_0 nth_Cons_Suc)
    have all: "\<forall>j < length (x # xs). startOffset ((x # xs) ! j) \<le> offset \<longrightarrow> i + j \<le> i"
    proof (intro allI impI)
      fix j assume "j < length (x # xs)" "startOffset ((x # xs) ! j) \<le> offset"
      then show "i + j \<le> i" using none by (cases j) auto
    qed
    show ?thesis unfolding r rb using x all by simp
  qed
qed

lemma sorted_first_least:
  "sorted (map startOffset ss) \<Longrightarrow> j < length ss \<Longrightarrow> startOffset (hd ss) \<le> startOffset (ss ! j)"
  by (cases ss) (auto simp: nth_Cons split: nat.splits)

lemma resolve_greatest:
  assumes "wellFormed ss" and "ss \<noteq> []"
  shows "\<exists>i. resolve ss offset = Some i \<and> i < length ss \<and>
           (if \<exists>j < length ss. startOffset (ss ! j) \<le> offset
            then startOffset (ss ! i) \<le> offset \<and>
                 (\<forall>j < length ss. startOffset (ss ! j) \<le> offset \<longrightarrow> j \<le> i)
            else i = 0) \<and>
           (offset < startOffset (hd ss) \<longrightarrow> i = 0)"
proof (cases "\<exists>j < length ss. startOffset (ss ! j) \<le> offset")
  case True
  from scan_some [OF True, of 0 0]
  have s: "scan ss offset 0 0 < length ss" "startOffset (ss ! scan ss offset 0 0) \<le> offset"
    "\<forall>j < length ss. startOffset (ss ! j) \<le> offset \<longrightarrow> j \<le> scan ss offset 0 0"
    by simp_all
  have nb: "\<not> offset < startOffset (hd ss)"
  proof
    assume b: "offset < startOffset (hd ss)"
    from True obtain j where j: "j < length ss" "startOffset (ss ! j) \<le> offset" by blast
    from assms(1) have "sorted (map startOffset ss)" by (simp add: wellFormed_def)
    from sorted_first_least [OF this j(1)] j(2) b show False by simp
  qed
  show ?thesis using True s nb assms(2) by (simp add: resolve_def)
next
  case False
  then have "\<forall>j < length ss. \<not> startOffset (ss ! j) \<le> offset" by blast
  then have "scan ss offset 0 0 = 0" by (rule scan_none)
  then show ?thesis using False assms(2) by (simp add: resolve_def)
qed

text \<open>
  C1: for a well-formed, non-empty section list and an offset that is not negative,
  \<open>resolve\<close> returns an index of the list. If some section starts at or before the
  offset, the index returned is the greatest such index; otherwise, and in
  particular when the offset is below the first section's start, it is 0. On the
  scenario list with start offsets 0, 800 and 1600, which is well-formed, the
  offsets 750, 800 and 2000 resolve to 0, 1 and 2.
\<close>

theorem resolve_greatest_index:
  "(wellFormed ss \<and> 0 \<le> offset \<and> ss \<noteq> [] \<longrightarrow>
      (\<exists>i. resolve ss offset = Some i \<and> i < length ss \<and>
           (if \<exists>j < length ss. startOffset (ss ! j) \<le> offset
            then startOffset (ss ! i) \<le> offset \<and>
                 (\<forall>j < length ss. startOffset (ss ! j) \<le> offset \<longrightarrow> j \<le> i)
            else i = 0) \<and>
           (offset < startOffset (hd ss) \<longrightarrow> i = 0))) \<and>
   wellFormed scenario \<and>
   resolve scenario 750 = Some 0 \<and> resolve scenario 800 = Some 1 \<and>
   resolve scenario 2000 = Some 2"
proof (intro conjI impI)
  assume "wellFormed ss \<and> 0 \<le> offset \<and> ss \<noteq> []"
  then show "\<exists>i. resolve ss offset = Some i \<and> i < length ss \<and>
           (if \<exists>j < length ss. startOffset (ss ! j) \<le> offset
            then startOffset (ss ! i) \<le> offset \<and>
                 (\<forall>j < length ss. startOffset (ss ! j) \<le> offset \<longrightarrow> j \<le> i)
            else i = 0) \<and>
           (offset < startOffset (hd ss) \<longrightarrow> i = 0)"
    using resolve_greatest [of ss offset] by blast
next
  show "wellFormed scenario" by (simp add: wellFormed_def scenario_def upt_rec)
  show "resolve scenario 750 = Some 0" by (simp add: resolve_def scenario_def)
  show "resolve scenario 800 = Some 1" by (simp add: resolve_def scenario_def)
  show "resolve scenario 2000 = Some 2" by (simp add: resolve_def scenario_def)
qed

theorem resolve_greatest_index_witness:
  "wellFormed [\<lparr>sid = ''intro'', order = 0, startOffset = 100\<rparr>] \<and>
   resolve [\<lparr>sid = ''intro'', order = 0, startOffset = 100\<rparr>] 50 = Some 0 \<and>
   wellFormed scenario \<and> scenario \<noteq> [] \<and>
   (\<exists>j < length scenario. startOffset (scenario ! j) \<le> 900) \<and>
   resolve scenario 900 = Some 1 \<and>
   resolve scenario 750 = Some 0 \<and> resolve scenario 800 = Some 1 \<and>
   resolve scenario 2000 = Some 2"
proof -
  let ?one = "[\<lparr>sid = ''intro'', order = 0, startOffset = 100\<rparr>]"
  have wf1: "wellFormed ?one" by (simp add: wellFormed_def)
  from resolve_greatest_index [of ?one 50] wf1
  have a: "resolve ?one 50 = Some 0" by auto
  have ne: "scenario \<noteq> []" by (simp add: scenario_def)
  have ex: "\<exists>j < length scenario. startOffset (scenario ! j) \<le> 900"
    by (rule exI [of _ 0]) (simp add: scenario_def)
  have r: "resolve scenario 900 = Some 1" by (simp add: resolve_def scenario_def)
  from resolve_greatest_index [of scenario 900] ne
  have b: "wellFormed scenario \<and> resolve scenario 750 = Some 0 \<and>
      resolve scenario 800 = Some 1 \<and> resolve scenario 2000 = Some 2"
    by blast
  show ?thesis using wf1 a ne ex r b by blast
qed

section \<open>Pages without sections\<close>

text \<open>
  C7: on an empty section list the resolver returns undefined (\<open>None\<close>), not 0.
  For a page with no sections \<open>InContext\<close> passes \<open>contentSections = undefined\<close>
  to \<open>Screen\<close>, and \<open>Screen\<close> then mounts no side nav menu, whatever the display
  size. With a non-empty list the prop is present, carries the current index, and
  the side nav menu is mounted with it when the display size allows.
\<close>

theorem no_sections_distinct_case:
  "resolve [] offset = None \<and>
   InContext False slug idx [] r pct =
     ScreenElement \<lparr>activePage = slug, contentSectionsProp = None, renderingProp = r,
                    scrollPercent = pct\<rparr> \<and>
   sideNavMenu (Screen showMain showSide
     \<lparr>activePage = slug, contentSectionsProp = None, renderingProp = r,
      scrollPercent = pct\<rparr>) = None \<and>
   (pageSections \<noteq> [] \<longrightarrow>
      InContext False slug idx pageSections r pct =
        ScreenElement \<lparr>activePage = slug,
           contentSectionsProp = Some \<lparr>currentSectionIndex = idx, csSections = pageSections\<rparr>,
           renderingProp = r, scrollPercent = pct\<rparr> \<and>
      sideNavMenu (Screen showMain True
        \<lparr>activePage = slug,
         contentSectionsProp = Some \<lparr>currentSectionIndex = idx, csSections = pageSections\<rparr>,
         renderingProp = r, scrollPercent = pct\<rparr>) = Some (idx, pageSections))"
  by (simp add: resolve_def InContext_def Screen_def)

theorem no_sections_distinct_case_witness:
  "resolve [] 0 = None \<and>
   InContext False ''about'' (resolve [] 0) ([] :: Section list) False None =
     ScreenElement \<lparr>activePage = ''about'', contentSectionsProp = None, renderingProp = False,
                    scrollPercent = None\<rparr> \<and>
   scenario \<noteq> [] \<and>
   InContext False ''about'' (Some 0) scenario False None =
     ScreenElement \<lparr>activePage = ''about'',
        contentSectionsProp = Some \<lparr>currentSectionIndex = Some 0, csSections = scenario\<rparr>,
        renderingProp = False, scrollPercent = None\<rparr>"
proof -
  have ne: "scenario \<noteq> []" by (simp add: scenario_def)
  from no_sections_distinct_case [of 0 "''about''" "resolve [] 0" False None True True scenario]
    no_sections_distinct_case [of 0 "''about''" "Some 0" False None True True scenario] ne
  show ?thesis by blast
qed

section \<open>Hash navigation\<close>











end
